theory Spec2Isabelle
  imports Main "HOL-Library.AList"
begin

section \<open>Strings\<close>

text \<open>
  A JavaScript string is a sequence of UTF-16 code units. It is modelled as a
  \<^typ>\<open>string\<close> whose characters stand for the code units U+0000 to U+00FF; every
  string literal of \<^verbatim>\<open>songService.ts\<close> (the middle dot U+00B7 and the division sign
  U+00F7 included) lies in that range. \<^verbatim>\<open>length\<close> counts code units, as
  \<^verbatim>\<open>String.prototype.length\<close> does.
\<close>

definition code :: "char \<Rightarrow> nat" where
  "code c = of_char c"

text \<open>White space of \<^verbatim>\<open>trim()\<close> and of the regular expression class \<^verbatim>\<open>\s\<close>:
  TAB, LF, VT, FF, CR, SPACE and NBSP.\<close>

definition isWhiteSpace :: "char \<Rightarrow> bool" where
  "isWhiteSpace c = (code c \<in> {9, 10, 11, 12, 13, 32, 160})"

text \<open>Line terminators, which the regular expression \<^verbatim>\<open>.\<close> does not match: LF and CR.\<close>

definition isLineTerminator :: "char \<Rightarrow> bool" where
  "isLineTerminator c = (code c \<in> {10, 13})"

definition trim :: "string \<Rightarrow> string" where
  "trim s = rev (dropWhile isWhiteSpace (rev (dropWhile isWhiteSpace s)))"

text \<open>\<^verbatim>\<open>toLowerCase()\<close> on the modelled range: A to Z, and the Latin-1 capitals U+00C0 to
  U+00DE without the multiplication sign U+00D7, move up by 32.\<close>

definition lowerChar :: "char \<Rightarrow> char" where
  "lowerChar c =
     (if (65 \<le> code c \<and> code c \<le> 90) \<or> (192 \<le> code c \<and> code c \<le> 222 \<and> code c \<noteq> 215)
      then char_of (code c + 32) else c)"

definition toLowerCase :: "string \<Rightarrow> string" where
  "toLowerCase s = map lowerChar s"

fun startsWith :: "string \<Rightarrow> string \<Rightarrow> bool" where
  "startsWith s [] = True"
| "startsWith [] (k # ks) = False"
| "startsWith (c # cs) (k # ks) = (c = k \<and> startsWith cs ks)"

text \<open>\<^verbatim>\<open>s.includes(k)\<close>: \<open>k\<close> occurs in \<open>s\<close> as a contiguous run.\<close>

fun js_includes :: "string \<Rightarrow> string \<Rightarrow> bool" where
  "js_includes [] k = (k = [])"
| "js_includes (c # cs) k = (startsWith (c # cs) k \<or> js_includes cs k)"

text \<open>\<^verbatim>\<open>s.slice(0, n)\<close> for a non-negative \<open>n\<close>.\<close>

definition slice0 :: "nat \<Rightarrow> string \<Rightarrow> string" where
  "slice0 n s = take n s"

text \<open>\<^verbatim>\<open>s.replace(pat, rep)\<close> with a string pattern: the first occurrence only.\<close>

fun replace :: "string \<Rightarrow> string \<Rightarrow> string \<Rightarrow> string" where
  "replace [] pat rep = (if pat = [] then rep else [])"
| "replace (c # cs) pat rep =
     (if startsWith (c # cs) pat then rep @ drop (length pat) (c # cs)
      else c # replace cs pat rep)"

text \<open>\<^verbatim>\<open>s.split(sep)\<close> with a one-character separator: the pieces between all
  occurrences of the separator; a string without it is the single piece.\<close>

function split :: "char \<Rightarrow> string \<Rightarrow> string list" where
  "split sep s =
     takeWhile (\<lambda>c. c \<noteq> sep) s #
       (case dropWhile (\<lambda>c. c \<noteq> sep) s of [] \<Rightarrow> [] | _ # rest \<Rightarrow> split sep rest)"
  by pat_completeness auto
termination
proof (relation "measure (\<lambda>(sep, s). length s)")
  show "wf (measure (\<lambda>(sep, s). length s))" by simp
next
  fix sep :: char and s :: string and x rest
  assume "dropWhile (\<lambda>c. c \<noteq> sep) s = x # rest"
  then have "length (x # rest) \<le> length s"
    by (metis length_dropWhile_le)
  then show "((sep, rest), (sep, s)) \<in> measure (\<lambda>(sep, s). length s)"
    by simp
qed

declare split.simps [simp del]

text \<open>\<^verbatim>\<open>xs[i]\<close> on an array, \<^verbatim>\<open>undefined\<close> out of range.\<close>

definition at_index :: "'a list \<Rightarrow> nat \<Rightarrow> 'a option" where
  "at_index xs i = (if i < length xs then Some (xs ! i) else None)"

text \<open>\<^verbatim>\<open>x || d\<close> where \<open>x\<close> is a string or \<^verbatim>\<open>undefined\<close>: the empty string and
  \<^verbatim>\<open>undefined\<close> are falsy.\<close>

definition orElse :: "string option \<Rightarrow> string \<Rightarrow> string" where
  "orElse x d = (case x of None \<Rightarrow> d | Some s \<Rightarrow> if s = [] then d else s)"

definition isDigit :: "char \<Rightarrow> bool" where
  "isDigit c = (48 \<le> code c \<and> code c \<le> 57)"


section \<open>Data model\<close>

record Song =
  id_song :: int
  title :: string
  artist :: string
  album :: string
  albumCover :: string
  preview :: string
  duration :: int

text \<open>\<^verbatim>\<open>SongData\<close>: the \<^verbatim>\<open>type\<close> tag with the platform's own identifier
  (\<^verbatim>\<open>videoId\<close> or \<^verbatim>\<open>trackId\<close>).\<close>

datatype platform = youtube string | spotify string

record SongData =
  source :: platform
  sd_title :: string
  sd_artist :: string
  sd_albumCover :: "string option"
  startTime :: int
  endTime :: int

record 'a CacheEntry =
  data :: 'a
  timestamp :: int

text \<open>A track object of the catalog's \<^verbatim>\<open>results\<close> array, with the fields the
  service reads, typed as the catalog sends them: text fields are strings, the track
  identifier and the duration are integers. \<open>None\<close> is an absent field.\<close>

record track =
  previewUrl :: "string option"
  kind :: "string option"
  trackId :: "int option"
  trackName :: "string option"
  artistName :: "string option"
  collectionName :: "string option"
  artworkUrl100 :: "string option"
  trackTimeMillis :: "int option"

record itunes_data =
  results :: "track list option"

record oembed =
  oembed_title :: "string option"
  thumbnail_url :: "string option"

text \<open>What one \<^verbatim>\<open>fetch\<close> followed by \<^verbatim>\<open>res.json()\<close> does: the parsed body of a 2xx
  response, a response that is not \<^verbatim>\<open>res.ok\<close>, a rejection that is not an abort
  (transport error, unparsable body), or the \<^verbatim>\<open>AbortError\<close> of the request's
  \<^verbatim>\<open>AbortController\<close>.\<close>

datatype 'a fetch_result = Ok 'a | NotOk | NetworkError | AbortError

text \<open>The catalog endpoint: the result of a request for a URL issued at a time (ms), and
  the time the request takes (ms).\<close>

type_synonym network = "string \<Rightarrow> int \<Rightarrow> itunes_data option fetch_result \<times> nat"

datatype event = NetFetch string | Sleep nat | CacheGet string | CacheSet string

record world =
  searchCache :: "(string \<times> Song list CacheEntry) list"
  popularCache :: "Song list CacheEntry option"
  clock :: int
  trace :: "event list"

definition SEARCH_CACHE_TTL :: int where
  "SEARCH_CACHE_TTL = 30 * 60 * 1000"

definition POPULAR_CACHE_TTL :: int where
  "POPULAR_CACHE_TTL = 2 * 60 * 60 * 1000"

section \<open>Catalog service\<close>

text \<open>\<^verbatim>\<open>isCacheValid(entry, ttl)\<close>, with the value of \<^verbatim>\<open>Date.now()\<close> it reads.\<close>

definition isCacheValid :: "int \<Rightarrow> 'a CacheEntry option \<Rightarrow> int \<Rightarrow> bool" where
  "isCacheValid now entry ttl =
     (case entry of None \<Rightarrow> False | Some e \<Rightarrow> now - timestamp e < ttl)"

text \<open>\<^verbatim>\<open>cleanupCache\<close>: the sweep the interval timer runs. The \<^verbatim>\<open>Map\<close> of the search
  cache is an association list in insertion order.\<close>

definition cleanupCache :: "world \<Rightarrow> world" where
  "cleanupCache w =
     (let now = clock w in
      w\<lparr>searchCache :=
           filter (\<lambda>(key, entry). \<not> (now - timestamp entry \<ge> SEARCH_CACHE_TTL)) (searchCache w),
        popularCache :=
           (case popularCache w of
              None \<Rightarrow> None
            | Some p \<Rightarrow> if now - timestamp p \<ge> POPULAR_CACHE_TTL then None else Some p)\<rparr>)"

text \<open>Truthiness of an optional string and of an optional number.\<close>

definition truthyStr :: "string option \<Rightarrow> bool" where
  "truthyStr x = (case x of None \<Rightarrow> False | Some s \<Rightarrow> s \<noteq> [])"

definition truthyNum :: "int option \<Rightarrow> bool" where
  "truthyNum x = (case x of None \<Rightarrow> False | Some n \<Rightarrow> n \<noteq> 0)"

definition validTrack :: "track \<Rightarrow> bool" where
  "validTrack t = (truthyStr (previewUrl t) \<and> kind t = Some ''song'' \<and> truthyNum (trackId t))"

definition toSong :: "track \<Rightarrow> Song" where
  "toSong t =
     \<lparr>id_song = (case trackId t of None \<Rightarrow> 0 | Some i \<Rightarrow> i),
      title = slice0 100 (orElse (trackName t) ''Unknown''),
      artist = slice0 100 (orElse (artistName t) ''Unknown Artist''),
      album = slice0 100 (orElse (collectionName t) []),
      albumCover =
        orElse (map_option (\<lambda>u. replace u ''100x100'' ''300x300'') (artworkUrl100 t)) [],
      preview = (case previewUrl t of None \<Rightarrow> [] | Some u \<Rightarrow> u),
      duration =
        (case trackTimeMillis t of None \<Rightarrow> 30000 | Some n \<Rightarrow> if n = 0 then 30000 else n)
          div 1000\<rparr>"

text \<open>\<^verbatim>\<open>parseITunesResponse\<close>; \<open>None\<close> is the \<^verbatim>\<open>null\<close> that a failed fetch
  returns.\<close>

definition parseITunesResponse :: "itunes_data option \<Rightarrow> Song list" where
  "parseITunesResponse d =
     (case d of
        None \<Rightarrow> []
      | Some dat \<Rightarrow>
          (case results dat of
             None \<Rightarrow> []
           | Some ts \<Rightarrow> if length ts = 0 then [] else map toSong (filter validTrack ts)))"

text \<open>\<^verbatim>\<open>fetchFromITunes(url, retries)\<close>, started at time \<open>t\<close>: the value it resolves to,
  the time at which it resolves, and the requests and waits it made.\<close>

fun fetchFromITunes ::
  "network \<Rightarrow> string \<Rightarrow> nat \<Rightarrow> int \<Rightarrow> itunes_data option \<times> int \<times> event list" where
  "fetchFromITunes net url 0 t =
     (case net url t of
        (Ok j, d) \<Rightarrow> (j, t + int d, [NetFetch url])
      | (_, d) \<Rightarrow> (None, t + int d, [NetFetch url]))"
| "fetchFromITunes net url (Suc retries) t =
     (case net url t of
        (Ok j, d) \<Rightarrow> (j, t + int d, [NetFetch url])
      | (AbortError, d) \<Rightarrow> (None, t + int d, [NetFetch url])
      | (_, d) \<Rightarrow>
          (case fetchFromITunes net url retries (t + int d + 500) of
             (j, t', evs) \<Rightarrow> (j, t', NetFetch url # Sleep 500 # evs)))"

definition FALLBACK_SONGS :: "Song list" where
  "FALLBACK_SONGS =
     [\<lparr>id_song = 1440818839, title = ''Shape of You'', artist = ''Ed Sheeran'',
       album = [char_of (247 :: nat)],
       albumCover = ''https://is1-ssl.mzstatic.com/image/thumb/Music125/v4/3f/84/14/3f841469-7404-6b98-a8f9-4f8b1a3c3d4b/source/300x300bb.jpg'',
       preview = ''https://audio-ssl.itunes.apple.com/itunes-assets/AudioPreview116/v4/ab/86/52/ab8652a7-62d0-9fba-1f28-7a92c8d18518/mzaf_12184443632225615168.plus.aac.p.m4a'',
       duration = 234\<rparr>,
      \<lparr>id_song = 1450330685, title = ''Blinding Lights'', artist = ''The Weeknd'',
       album = ''After Hours'',
       albumCover = ''https://is1-ssl.mzstatic.com/image/thumb/Music115/v4/1c/50/de/1c50de8f-5ee5-5a31-5c83-9b1c6e0d3558/source/300x300bb.jpg'',
       preview = [], duration = 200\<rparr>,
      \<lparr>id_song = 1508562704, title = ''Levitating'', artist = ''Dua Lipa'',
       album = ''Future Nostalgia'',
       albumCover = ''https://is1-ssl.mzstatic.com/image/thumb/Music114/v4/3f/ee/75/3fee75c6-c8cc-2eb0-3e64-ce3d6e8f8d6a/source/300x300bb.jpg'',
       preview = [], duration = 203\<rparr>]"

definition queries :: "string list" where
  "queries =
     [''https://itunes.apple.com/search?term=top+hits+2024&media=music&entity=song&limit=8'',
      ''https://itunes.apple.com/search?term=arijit+singh&media=music&entity=song&limit=4'',
      ''https://itunes.apple.com/search?term=ed+sheeran&media=music&entity=song&limit=4'']"

text \<open>\<^verbatim>\<open>Array.from(new Map(allSongs.map(s => [s.id, s])).values())\<close>: the \<^verbatim>\<open>Map\<close>
  constructor sets the pairs one after the other; setting a key that is present
  replaces its value and keeps its place, setting a new key appends it.\<close>

definition uniqueById :: "Song list \<Rightarrow> Song list" where
  "uniqueById songs = map snd (foldl (\<lambda>m s. AList.update (id_song s) s m) [] songs)"

text \<open>The \<^verbatim>\<open>for\<close> loop over the settled results: a result whose value is
  \<^verbatim>\<open>null\<close> is skipped, the songs of the others are pushed in the order of the
  queries.\<close>

definition collect :: "itunes_data option list \<Rightarrow> Song list" where
  "collect vals =
     concat (map (\<lambda>v. case v of None \<Rightarrow> [] | Some d \<Rightarrow> parseITunesResponse (Some d)) vals)"

text \<open>\<^verbatim>\<open>getPopularSongs\<close> after the cache check. The three requests start together at
  the current time; \<^verbatim>\<open>Promise.allSettled\<close> resolves when the last of them has.\<close>

definition fetchPopular :: "network \<Rightarrow> world \<Rightarrow> Song list \<times> world" where
  "fetchPopular net w =
     (let settled = map (\<lambda>url. fetchFromITunes net url 2 (clock w)) queries;
          allSongs = collect (map fst settled);
          unique = uniqueById allSongs;
          finalSongs = take 15 unique;
          w1 = w\<lparr>clock := foldl max (clock w) (map (\<lambda>r. fst (snd r)) settled),
                 trace := trace w @ concat (map (\<lambda>r. snd (snd r)) settled)\<rparr>
      in if length finalSongs > 0
         then (finalSongs, w1\<lparr>popularCache := Some \<lparr>data = finalSongs, timestamp = clock w1\<rparr>\<rparr>)
         else (FALLBACK_SONGS, w1))"

definition getPopularSongs :: "network \<Rightarrow> world \<Rightarrow> Song list \<times> world" where
  "getPopularSongs net w =
     (case popularCache w of
        None \<Rightarrow> fetchPopular net w
      | Some p \<Rightarrow>
          if isCacheValid (clock w) (Some p) POPULAR_CACHE_TTL \<and> length (data p) > 0
          then (data p, w)
          else fetchPopular net w)"

text \<open>\<^verbatim>\<open>encodeURIComponent\<close> on the modelled range: the unreserved characters stand for
  themselves, every other code unit is the percent-escape of its UTF-8 bytes.\<close>

definition hexDigit :: "nat \<Rightarrow> char" where
  "hexDigit n = (if n < 10 then char_of (48 + n) else char_of (55 + n))"

definition percent :: "nat \<Rightarrow> string" where
  "percent b = [CHR ''%'', hexDigit (b div 16), hexDigit (b mod 16)]"

definition isUnreserved :: "char \<Rightarrow> bool" where
  "isUnreserved c =
     ((65 \<le> code c \<and> code c \<le> 90) \<or> (97 \<le> code c \<and> code c \<le> 122) \<or> isDigit c \<or>
      c \<in> set ''-_.!~*()'' \<or> code c = 39)"

definition encodeChar :: "char \<Rightarrow> string" where
  "encodeChar c =
     (if isUnreserved c then [c]
      else if code c < 128 then percent (code c)
      else percent (192 + code c div 64) @ percent (128 + code c mod 64))"

definition encodeURIComponent :: "string \<Rightarrow> string" where
  "encodeURIComponent s = concat (map encodeChar s)"

definition searchUrl :: "string \<Rightarrow> string" where
  "searchUrl trimmed =
     ''https://itunes.apple.com/search?term='' @ encodeURIComponent trimmed @
     ''&media=music&entity=song&limit=15''"

text \<open>The fallback search of \<^verbatim>\<open>searchSongs\<close>.\<close>

definition fallbackSearch :: "string \<Rightarrow> Song list" where
  "fallbackSearch key =
     filter (\<lambda>s. js_includes (toLowerCase (title s)) key \<or> js_includes (toLowerCase (artist s)) key)
       FALLBACK_SONGS"

definition searchSongs :: "network \<Rightarrow> string \<Rightarrow> world \<Rightarrow> Song list \<times> world" where
  "searchSongs net query w =
     (let trimmed = trim query in
      if trimmed = [] \<or> length trimmed < 2 then ([], w)
      else
        let key = toLowerCase trimmed;
            cached = map_of (searchCache w) key;
            w1 = w\<lparr>trace := trace w @ [CacheGet key]\<rparr>
        in case (if isCacheValid (clock w1) cached SEARCH_CACHE_TTL then cached else None) of
             Some entry \<Rightarrow> (data entry, w1)
           | None \<Rightarrow>
               (case fetchFromITunes net (searchUrl trimmed) 2 (clock w1) of
                  (dat, t', evs) \<Rightarrow>
                    let songs = parseITunesResponse dat;
                        w2 = w1\<lparr>clock := t', trace := trace w1 @ evs\<rparr>
                    in if length songs \<noteq> 0
                       then (songs,
                             w2\<lparr>searchCache :=
                                  AList.update key \<lparr>data = songs, timestamp = clock w2\<rparr>
                                    (searchCache w2),
                                trace := trace w2 @ [CacheSet key]\<rparr>)
                       else (fallbackSearch key, w2)))"

section \<open>Link resolver\<close>

subsection \<open>The regular expressions\<close>








definition middleDot :: char where
  "middleDot = char_of (183 :: nat)"

text \<open>
  \<^verbatim>\<open>/(.+?)\s*<middle dot>\s*(.+)/\<close>, by the backtracking order of the matcher.
  \<open>dotRun s\<close> is the longest prefix of \<open>s\<close> that \<^verbatim>\<open>.+\<close> can take.
\<close>

definition dotRun :: "string \<Rightarrow> string" where
  "dotRun s = takeWhile (\<lambda>c. \<not> isLineTerminator c) s"

text \<open>The second \<^verbatim>\<open>\s*\<close> and the greedy group \<^verbatim>\<open>(.+)\<close> after the middle dot, on the
  text \<open>s\<close> that follows it: \<^verbatim>\<open>\s*\<close> first takes \<open>k\<close> characters of white space, then
  one fewer each time the group finds nothing to take.\<close>

fun lastGroup :: "string \<Rightarrow> nat \<Rightarrow> string option" where
  "lastGroup s 0 = (if dotRun s \<noteq> [] then Some (dotRun s) else None)"
| "lastGroup s (Suc k) =
     (if dotRun (drop (Suc k) s) \<noteq> [] then Some (dotRun (drop (Suc k) s))
      else lastGroup s k)"

text \<open>What follows the lazy group, on the text \<open>rest\<close> after it: the first \<^verbatim>\<open>\s*\<close>
  takes the whole run of white space (the middle dot is no white space, so no shorter
  run can be followed by it), then the middle dot, then the rest of the pattern.\<close>

definition afterLazy :: "string \<Rightarrow> string option" where
  "afterLazy rest =
     (case dropWhile isWhiteSpace rest of
        [] \<Rightarrow> None
      | d # s \<Rightarrow>
          if d = middleDot then lastGroup s (length (takeWhile isWhiteSpace s)) else None)"

text \<open>The lazy group \<^verbatim>\<open>(.+?)\<close> holding \<open>acc\<close>: it tries the rest of the pattern, and
  takes one more character only when that fails.\<close>

fun lazyGroup :: "string \<Rightarrow> string \<Rightarrow> (string \<times> string) option" where
  "lazyGroup acc rest =
     (case afterLazy rest of
        Some g2 \<Rightarrow> Some (acc, g2)
      | None \<Rightarrow>
          (case rest of
             [] \<Rightarrow> None
           | d # ds \<Rightarrow> if isLineTerminator d then None else lazyGroup (acc @ [d]) ds))"

declare lazyGroup.simps [simp del]

text \<open>The match from the leftmost start position that has one: groups 1 and 2.\<close>

fun matchTitleArtist :: "string \<Rightarrow> (string \<times> string) option" where
  "matchTitleArtist [] = None"
| "matchTitleArtist (c # cs) =
     (case (if isLineTerminator c then None else lazyGroup [c] cs) of
        Some g \<Rightarrow> Some g
      | None \<Rightarrow> matchTitleArtist cs)"

subsection \<open>The resolver\<close>



text \<open>The embed endpoints: what the \<^verbatim>\<open>fetch\<close> of a URL and \<^verbatim>\<open>res.json()\<close> do.\<close>

type_synonym embed = "string \<Rightarrow> oembed fetch_result"

text \<open>\<^verbatim>\<open>fetchYouTubeInfo\<close>. A rejected fetch and the \<^verbatim>\<open>TypeError\<close> of
  \<^verbatim>\<open>data.title.split\<close> on a body without a title are caught and give \<^verbatim>\<open>null\<close>.\<close>

definition youtubeOembedUrl :: "string \<Rightarrow> string" where
  "youtubeOembedUrl videoId =
     ''https://www.youtube.com/oembed?url=https://www.youtube.com/watch?v='' @ videoId @
     ''&format=json''"

definition spotifyOembedUrl :: "string \<Rightarrow> string" where
  "spotifyOembedUrl track_id =
     ''https://open.spotify.com/oembed?url=https://open.spotify.com/track/'' @ track_id"

definition fetchYouTubeInfo :: "embed \<Rightarrow> string \<Rightarrow> SongData option" where
  "fetchYouTubeInfo emb videoId =
     (case emb (youtubeOembedUrl videoId) of
        Ok d \<Rightarrow>
          (case oembed_title d of
             None \<Rightarrow> None
           | Some t \<Rightarrow>
               let parts = map trim (split CHR ''-'' t) in
               Some \<lparr>source = youtube videoId,
                     sd_title = orElse (at_index parts 1) t,
                     sd_artist = orElse (at_index parts 0) ''Unknown Artist'',
                     sd_albumCover =
                       Some (orElse (thumbnail_url d)
                         (''https://img.youtube.com/vi/'' @ videoId @ ''/maxresdefault.jpg'')),
                     startTime = 0,
                     endTime = 30\<rparr>)
      | _ \<Rightarrow> None)"

definition fetchSpotifyInfo :: "embed \<Rightarrow> string \<Rightarrow> SongData option" where
  "fetchSpotifyInfo emb track_id =
     (case emb (spotifyOembedUrl track_id) of
        Ok d \<Rightarrow>
          (let m = (case oembed_title d of None \<Rightarrow> None | Some t \<Rightarrow> matchTitleArtist t) in
           Some \<lparr>source = spotify track_id,
                 sd_title = (case m of Some g \<Rightarrow> fst g | None \<Rightarrow> orElse (oembed_title d) ''Unknown''),
                 sd_artist = (case m of Some g \<Rightarrow> snd g | None \<Rightarrow> ''Unknown Artist''),
                 sd_albumCover = thumbnail_url d,
                 startTime = 0,
                 endTime = 30\<rparr>)
      | _ \<Rightarrow> None)"


section \<open>Observations on traces, and example surroundings\<close>


text \<open>Time passing between two calls of the service.\<close>

definition advance :: "int \<Rightarrow> world \<Rightarrow> world" where
  "advance dt w = w\<lparr>clock := clock w + dt\<rparr>"

text \<open>Concrete surroundings for the examples: an empty world at time 0, an endpoint that
  is down, and one that answers every query with an empty result list.\<close>

definition emptyWorld :: world where
  "emptyWorld = \<lparr>searchCache = [], popularCache = None, clock = 0, trace = []\<rparr>"

definition netDown :: network where
  "netDown url t = (NetworkError, 0)"

definition netNoResults :: network where
  "netNoResults url t = (Ok (Some \<lparr>results = Some []\<rparr>), 100)"

text \<open>A world whose two caches were filled at time 0, seen at the time \<open>now\<close>.\<close>

definition filledWorld :: "int \<Rightarrow> world" where
  "filledWorld now =
     \<lparr>searchCache = [(''ed'', \<lparr>data = FALLBACK_SONGS, timestamp = 0\<rparr>)],
      popularCache = Some \<lparr>data = FALLBACK_SONGS, timestamp = 0\<rparr>,
      clock = now, trace = []\<rparr>"

text \<open>A catalog that answers every query with one valid track.\<close>

definition perfectTrack :: track where
  "perfectTrack =
     \<lparr>previewUrl = Some ''https://audio-ssl.itunes.apple.com/perfect.m4a'',
      kind = Some ''song'', trackId = Some 1193701392, trackName = Some ''Perfect'',
      artistName = Some ''Ed Sheeran'', collectionName = None,
      artworkUrl100 = Some ''https://is1-ssl.mzstatic.com/image/100x100bb.jpg'',
      trackTimeMillis = Some 263400\<rparr>"


text \<open>Following the words of the specification, to compare \<^verbatim>\<open>getPopularSongs\<close> with:
  the identifiers of a list in first-seen order, each once.\<close>

fun firstSeen :: "'a list \<Rightarrow> 'a list" where
  "firstSeen [] = []"
| "firstSeen (x # xs) = x # firstSeen (filter (\<lambda>y. y \<noteq> x) xs)"

text \<open>A catalog that has two versions of one track: the first popular query gets the
  one, the two others get the other.\<close>

definition netTwoVersions :: network where
  "netTwoVersions url t =
     (if url = hd queries then (Ok (Some \<lparr>results = Some [perfectTrack]\<rparr>), 100)
      else (Ok (Some \<lparr>results = Some [perfectTrack\<lparr>trackName := Some ''Perfect (Acoustic)''\<rparr>]\<rparr>),
            100))"

text \<open>An embed endpoint that answers every request with the title \<open>t\<close> and no
  thumbnail.\<close>

definition embTitle :: "string \<Rightarrow> embed" where
  "embTitle t url = Ok \<lparr>oembed_title = Some t, thumbnail_url = None\<rparr>"

section \<open>Retry policy\<close>

lemma fetchFromITunes_time: "fst (snd (fetchFromITunes net url n t)) \<ge> t"
proof (induction n arbitrary: t)
  case 0
  show ?case by (simp split: prod.splits fetch_result.splits)
next
  case (Suc n)
  show ?case
  proof (cases "net url t")
    case (Pair r d)
    show ?thesis
    proof (cases "fetchFromITunes net url n (t + int d + 500)")
      case (fields j t' evs)
      with Suc.IH [of "t + int d + 500"] have "t \<le> t'"
        by simp
      with Pair fields show ?thesis
        by (cases r) simp_all
    qed
  qed
qed

lemma fetchFromITunes_first_event:
  "\<exists>rest. snd (snd (fetchFromITunes net url n t)) = NetFetch url # rest"
  by (cases n) (auto split: prod.splits fetch_result.splits)


text \<open>
  C5. \<^verbatim>\<open>fetchFromITunes\<close> with its default of two retries, for any outcomes \<open>r0\<close>,
  \<open>r1\<close>, \<open>r2\<close> of the requests it can make: a 2xx response ends it with the parsed body;
  an \<^verbatim>\<open>AbortError\<close> ends it at once with \<^verbatim>\<open>null\<close> and no further request; any
  other failure (a status that is not 2xx, a transport error) is followed by a wait of
  500 ms and a new request, at most twice, so there are at most three requests; when
  the third request fails too the result is \<^verbatim>\<open>null\<close>. The function always returns.
\<close>

theorem fetchFromITunes_retry_policy:
  assumes "net url t = (r0, d0)"
    and "net url (t + int d0 + 500) = (r1, d1)"
    and "net url (t + int d0 + 500 + int d1 + 500) = (r2, d2)"
  shows "fetchFromITunes net url 2 t =
     (case r0 of
        Ok j \<Rightarrow> (j, t + int d0, [NetFetch url])
      | AbortError \<Rightarrow> (None, t + int d0, [NetFetch url])
      | _ \<Rightarrow>
        (case r1 of
           Ok j \<Rightarrow> (j, t + int d0 + 500 + int d1, [NetFetch url, Sleep 500, NetFetch url])
         | AbortError \<Rightarrow>
             (None, t + int d0 + 500 + int d1, [NetFetch url, Sleep 500, NetFetch url])
         | _ \<Rightarrow>
           (case r2 of
              Ok j \<Rightarrow>
                (j, t + int d0 + 500 + int d1 + 500 + int d2,
                 [NetFetch url, Sleep 500, NetFetch url, Sleep 500, NetFetch url])
            | _ \<Rightarrow>
                (None, t + int d0 + 500 + int d1 + 500 + int d2,
                 [NetFetch url, Sleep 500, NetFetch url, Sleep 500, NetFetch url]))))"
  using assms
  by (simp add: numeral_2_eq_2 split: fetch_result.splits)

text \<open>An endpoint that answers 503, then drops the connection, then answers.\<close>

theorem fetchFromITunes_retry_policy_witness:
  "fetchFromITunes
     (\<lambda>url t. if t = 0 then (NotOk, 100) else if t = 600 then (NetworkError, 200)
               else (Ok (Some \<lparr>results = None\<rparr>), 50))
     ''u'' 2 0 =
   (Some \<lparr>results = None\<rparr>, 1350,
    [NetFetch ''u'', Sleep 500, NetFetch ''u'', Sleep 500, NetFetch ''u''])"
  using fetchFromITunes_retry_policy
    [of "\<lambda>url t. if t = 0 then (NotOk, 100) else if t = 600 then (NetworkError, 200)
                   else (Ok (Some \<lparr>results = None\<rparr>), 50)"
        "''u''" 0 NotOk 100 NetworkError 200 "Ok (Some \<lparr>results = None\<rparr>)" 50]
  by simp

section \<open>Short queries\<close>

text \<open>
  C9. A query whose trimmed form has fewer than two characters (the empty one included)
  gives the empty list and leaves the world as it was: no request, no lookup in the
  search cache and no write to it is added to the trace, and the caches are unchanged.
\<close>

theorem searchSongs_short_query:
  "length (trim q) < 2 \<Longrightarrow> searchSongs net q w = ([], w)"
  by (auto simp: searchSongs_def Let_def)

theorem searchSongs_short_query_witness:
  "length (trim '' a '') < 2 \<and> searchSongs netDown '' a '' emptyWorld = ([], emptyWorld)"
proof -
  have short: "length (trim '' a '') < 2" by code_simp
  show ?thesis using short searchSongs_short_query [OF short] by simp
qed

section \<open>Cache expiry\<close>

lemma map_of_filter_keep:
  "map_of xs k = Some e \<Longrightarrow> P (k, e) \<Longrightarrow> map_of (filter P xs) k = Some e"
  by (induction xs) (auto split: if_splits)

lemma length_toLowerCase [simp]: "length (toLowerCase s) = length s"
  by (simp add: toLowerCase_def)

lemma isCacheValid_later:
  "\<not> isCacheValid now entry ttl \<Longrightarrow> now \<le> now' \<Longrightarrow> \<not> isCacheValid now' entry ttl"
  by (auto simp: isCacheValid_def split: option.splits)


lemma searchSongs_miss:
  assumes "2 \<le> length (trim q)"
    and "\<not> isCacheValid (clock w) (map_of (searchCache w) (toLowerCase (trim q)))
           SEARCH_CACHE_TTL"
    and "fetchFromITunes net (searchUrl (trim q)) 2 (clock w) = (dat, t', evs)"
  shows "searchSongs net q w =
     (if parseITunesResponse dat \<noteq> []
      then (parseITunesResponse dat,
            w\<lparr>searchCache :=
                 AList.update (toLowerCase (trim q))
                   \<lparr>data = parseITunesResponse dat, timestamp = t'\<rparr> (searchCache w),
               clock := t',
               trace := trace w @ CacheGet (toLowerCase (trim q)) # evs @
                          [CacheSet (toLowerCase (trim q))]\<rparr>)
      else (fallbackSearch (toLowerCase (trim q)),
            w\<lparr>clock := t', trace := trace w @ CacheGet (toLowerCase (trim q)) # evs\<rparr>))"
  using assms by (auto simp: searchSongs_def Let_def)

lemma search_result_stale:
  assumes "map_of (searchCache w) (toLowerCase (trim q)) = Some e"
    and "clock w - timestamp e \<ge> SEARCH_CACHE_TTL"
  shows "fst (searchSongs net q w) =
         fst (searchSongs net q
                (w\<lparr>searchCache := AList.delete (toLowerCase (trim q)) (searchCache w)\<rparr>))"
  using assms
  by (simp add: searchSongs_def Let_def isCacheValid_def AList.delete_conv split: prod.splits)

lemma popular_result_stale:
  assumes "popularCache w = Some p" and "clock w - timestamp p \<ge> POPULAR_CACHE_TTL"
  shows "fst (getPopularSongs net w) = fst (getPopularSongs net (w\<lparr>popularCache := None\<rparr>))"
  using assms
  by (simp add: getPopularSongs_def fetchPopular_def Let_def isCacheValid_def)

text \<open>
  C8. The sweep \<^verbatim>\<open>cleanupCache\<close>, run at the time \<open>clock w\<close>, keeps every entry of the
  search cache whose age is below 30 minutes and keeps the popular slot when its age
  is below 2 hours. On the read path an entry that has reached its TTL is not served:
  what \<^verbatim>\<open>searchSongs\<close> and \<^verbatim>\<open>getPopularSongs\<close> return in a world \<open>v\<close> with such an
  entry is what they return in the same world without the entry.
\<close>

theorem sweep_and_read_respect_ttl:
  "(map_of (searchCache w) k = Some e \<and> clock w - timestamp e < SEARCH_CACHE_TTL \<longrightarrow>
      map_of (searchCache (cleanupCache w)) k = Some e) \<and>
   (popularCache w = Some p \<and> clock w - timestamp p < POPULAR_CACHE_TTL \<longrightarrow>
      popularCache (cleanupCache w) = Some p) \<and>
   (map_of (searchCache v) (toLowerCase (trim q)) = Some e' \<and>
    clock v - timestamp e' \<ge> SEARCH_CACHE_TTL \<longrightarrow>
      fst (searchSongs net q v) =
      fst (searchSongs net q
             (v\<lparr>searchCache := AList.delete (toLowerCase (trim q)) (searchCache v)\<rparr>))) \<and>
   (popularCache v = Some p' \<and> clock v - timestamp p' \<ge> POPULAR_CACHE_TTL \<longrightarrow>
      fst (getPopularSongs net v) = fst (getPopularSongs net (v\<lparr>popularCache := None\<rparr>)))"
proof (intro conjI impI)
  assume "map_of (searchCache w) k = Some e \<and> clock w - timestamp e < SEARCH_CACHE_TTL"
  then show "map_of (searchCache (cleanupCache w)) k = Some e"
    by (simp add: cleanupCache_def Let_def map_of_filter_keep)
next
  assume "popularCache w = Some p \<and> clock w - timestamp p < POPULAR_CACHE_TTL"
  then show "popularCache (cleanupCache w) = Some p"
    by (simp add: cleanupCache_def Let_def)
next
  assume "map_of (searchCache v) (toLowerCase (trim q)) = Some e' \<and>
    clock v - timestamp e' \<ge> SEARCH_CACHE_TTL"
  then show "fst (searchSongs net q v) =
      fst (searchSongs net q
             (v\<lparr>searchCache := AList.delete (toLowerCase (trim q)) (searchCache v)\<rparr>))"
    by (simp add: search_result_stale)
next
  assume "popularCache v = Some p' \<and> clock v - timestamp p' \<ge> POPULAR_CACHE_TTL"
  then show "fst (getPopularSongs net v) = fst (getPopularSongs net (v\<lparr>popularCache := None\<rparr>))"
    by (simp add: popular_result_stale)
qed

text \<open>The filled world one second after the caches were written, and two hours
  after.\<close>

theorem sweep_and_read_respect_ttl_witness:
  "map_of (searchCache (cleanupCache (filledWorld 1000))) ''ed'' =
     Some \<lparr>data = FALLBACK_SONGS, timestamp = 0\<rparr> \<and>
   popularCache (cleanupCache (filledWorld 1000)) =
     Some \<lparr>data = FALLBACK_SONGS, timestamp = 0\<rparr> \<and>
   fst (searchSongs netDown '' Ed'' (filledWorld 7200000)) =
     fst (searchSongs netDown '' Ed'' ((filledWorld 7200000)\<lparr>searchCache := []\<rparr>)) \<and>
   fst (getPopularSongs netDown (filledWorld 7200000)) =
     fst (getPopularSongs netDown ((filledWorld 7200000)\<lparr>popularCache := None\<rparr>))"
proof -
  have key: "toLowerCase (trim '' Ed'') = ''ed''" by code_simp
  show ?thesis
    using sweep_and_read_respect_ttl
      [of "filledWorld 1000" "''ed''" "\<lparr>data = FALLBACK_SONGS, timestamp = 0\<rparr>"
          "\<lparr>data = FALLBACK_SONGS, timestamp = 0\<rparr>"
          "filledWorld 7200000" "'' Ed''" "\<lparr>data = FALLBACK_SONGS, timestamp = 0\<rparr>" netDown
          "\<lparr>data = FALLBACK_SONGS, timestamp = 0\<rparr>"]
    by (simp add: key filledWorld_def SEARCH_CACHE_TTL_def POPULAR_CACHE_TTL_def)
qed


section \<open>Failed searches are not cached\<close>

text \<open>
  C10. For a query of at least two characters that misses the cache, when the catalog
  fetch fails (\<^verbatim>\<open>null\<close>) or normalizes to the empty list, \<^verbatim>\<open>searchSongs\<close> returns
  the fallback search and leaves the search cache and the popular cache as they were;
  the same query repeated any time \<open>dt\<close> later (0 ms included) looks the key up and
  then sends a request to the catalog again.
\<close>

theorem failed_search_not_cached:
  assumes "2 \<le> length (trim q)"
    and "\<not> isCacheValid (clock w) (map_of (searchCache w) (toLowerCase (trim q)))
           SEARCH_CACHE_TTL"
    and "parseITunesResponse (fst (fetchFromITunes net (searchUrl (trim q)) 2 (clock w))) = []"
  shows "fst (searchSongs net q w) = fallbackSearch (toLowerCase (trim q)) \<and>
         searchCache (snd (searchSongs net q w)) = searchCache w \<and>
         popularCache (snd (searchSongs net q w)) = popularCache w \<and>
         (\<exists>rest. trace (snd (searchSongs net q (advance (int dt) (snd (searchSongs net q w))))) =
            trace (snd (searchSongs net q w)) @
            CacheGet (toLowerCase (trim q)) # NetFetch (searchUrl (trim q)) # rest)"
proof -
  obtain dat t' evs where
    f: "fetchFromITunes net (searchUrl (trim q)) 2 (clock w) = (dat, t', evs)"
    by (cases "fetchFromITunes net (searchUrl (trim q)) 2 (clock w)")
  with assms(3) have empty: "parseITunesResponse dat = []" by simp
  define w1 where
    "w1 = w\<lparr>clock := t', trace := trace w @ CacheGet (toLowerCase (trim q)) # evs\<rparr>"
  have first: "searchSongs net q w = (fallbackSearch (toLowerCase (trim q)), w1)"
    using searchSongs_miss [OF assms(1) assms(2) f] empty by (simp add: w1_def)
  have "clock w \<le> t'"
    using fetchFromITunes_time [of "clock w" net "searchUrl (trim q)" 2] f by simp
  then have later: "clock w \<le> clock (advance (int dt) w1)"
    by (simp add: advance_def w1_def)
  have miss2: "\<not> isCacheValid (clock (advance (int dt) w1))
      (map_of (searchCache (advance (int dt) w1)) (toLowerCase (trim q))) SEARCH_CACHE_TTL"
    using isCacheValid_later [OF assms(2) later] by (simp add: advance_def w1_def)
  obtain dat2 t2 evs2 where
    f2: "fetchFromITunes net (searchUrl (trim q)) 2 (clock (advance (int dt) w1)) =
           (dat2, t2, evs2)"
    by (cases "fetchFromITunes net (searchUrl (trim q)) 2 (clock (advance (int dt) w1))")
  obtain rest where evs2: "evs2 = NetFetch (searchUrl (trim q)) # rest"
    using fetchFromITunes_first_event
      [of net "searchUrl (trim q)" 2 "clock (advance (int dt) w1)"] f2
    by auto
  have "\<exists>rest'. trace (snd (searchSongs net q (advance (int dt) w1))) =
          trace w1 @ CacheGet (toLowerCase (trim q)) # NetFetch (searchUrl (trim q)) # rest'"
    using searchSongs_miss [OF assms(1) miss2 f2] evs2 by (simp add: advance_def)
  with first show ?thesis by (simp add: w1_def)
qed

text \<open>The catalog answers the query \<^verbatim>\<open>zz\<close> with no results, twice in a row.\<close>

theorem failed_search_not_cached_witness:
  "fst (searchSongs netNoResults ''zz'' emptyWorld) = [] \<and>
   searchCache (snd (searchSongs netNoResults ''zz'' emptyWorld)) = [] \<and>
   popularCache (snd (searchSongs netNoResults ''zz'' emptyWorld)) = None \<and>
   (\<exists>rest. trace (snd (searchSongs netNoResults ''zz''
                (advance 0 (snd (searchSongs netNoResults ''zz'' emptyWorld))))) =
      trace (snd (searchSongs netNoResults ''zz'' emptyWorld)) @
      CacheGet ''zz'' # NetFetch (searchUrl ''zz'') # rest)"
proof -
  have tr: "trim ''zz'' = ''zz''" by code_simp
  have lo: "toLowerCase ''zz'' = ''zz''" by code_simp
  have fb: "fallbackSearch ''zz'' = []" by code_simp
  have len: "2 \<le> length (trim ''zz'')" by (simp add: tr)
  have miss: "\<not> isCacheValid (clock emptyWorld)
      (map_of (searchCache emptyWorld) (toLowerCase (trim ''zz''))) SEARCH_CACHE_TTL"
    by (simp add: emptyWorld_def isCacheValid_def)
  have none: "parseITunesResponse
      (fst (fetchFromITunes netNoResults (searchUrl (trim ''zz'')) 2 (clock emptyWorld))) = []"
    by (simp add: numeral_2_eq_2 netNoResults_def parseITunesResponse_def)
  show ?thesis
    using failed_search_not_cached [OF len miss none, of 0]
    by (simp add: tr lo fb emptyWorld_def)
qed


section \<open>Cache hits\<close>





section \<open>Fallback content\<close>








section \<open>Deduplication of the popular songs\<close>

lemma set_firstSeen: "set (firstSeen xs) = set xs"
  by (induction xs rule: firstSeen.induct) auto

lemma distinct_firstSeen: "distinct (firstSeen xs)"
  by (induction xs rule: firstSeen.induct) (auto simp: set_firstSeen)

lemma keys_fold_update:
  "map fst (foldl (\<lambda>m s. AList.update (f s) s m) m0 xs) =
   map fst m0 @ firstSeen (filter (\<lambda>k. k \<notin> set (map fst m0)) (map f xs))"
proof (induction xs arbitrary: m0)
  case Nil
  show ?case by simp
next
  case (Cons x xs)
  show ?case
  proof (cases "f x \<in> set (map fst m0)")
    case True
    then have "map fst (AList.update (f x) x m0) = map fst m0"
      by (simp add: AList.update_keys)
    with True Cons.IH [of "AList.update (f x) x m0"] show ?thesis by simp
  next
    case False
    then have keys: "map fst (AList.update (f x) x m0) = map fst m0 @ [f x]"
      by (simp add: AList.update_keys)
    have "filter (\<lambda>k. k \<notin> set (map fst m0 @ [f x])) (map f xs) =
          filter (\<lambda>y. y \<noteq> f x) (filter (\<lambda>k. k \<notin> set (map fst m0)) (map f xs))"
      by (auto intro: filter_cong)
    with False keys Cons.IH [of "AList.update (f x) x m0"] show ?thesis by simp
  qed
qed

lemma map_of_fold_update:
  "k \<in> f ` set xs \<Longrightarrow>
   map_of (foldl (\<lambda>m s. AList.update (f s) s m) m0 xs) k = Some (last (filter (\<lambda>s. f s = k) xs))"
proof (induction xs rule: rev_induct)
  case Nil
  then show ?case by simp
next
  case (snoc x xs)
  show ?case
  proof (cases "f x = k")
    case True
    then show ?thesis by (simp add: AList.update_conv')
  next
    case False
    with snoc.prems have "k \<in> f ` set xs" by auto
    with snoc.IH False show ?thesis by (simp add: AList.update_conv')
  qed
qed

lemma uniqueById_ids: "map id_song (uniqueById songs) = firstSeen (map id_song songs)"
proof -
  have own: "map id_song (map snd (foldl (\<lambda>m s. AList.update (id_song s) s m) m0 xs)) =
             map fst (foldl (\<lambda>m s. AList.update (id_song s) s m) m0 xs)"
    if "\<forall>(k, s) \<in> set m0. id_song s = k" for m0 xs
    using that
  proof (induction xs arbitrary: m0)
    case Nil
    then show ?case by (induction m0) auto
  next
    case (Cons x xs)
    have "\<forall>(k, s) \<in> set (AList.update (id_song x) x m0). id_song s = k"
      using Cons.prems by (induction m0) (auto split: if_splits)
    from Cons.IH [OF this] show ?case by simp
  qed
  show ?thesis
    using own [of "[]" songs] keys_fold_update [of id_song "[]" songs]
    by (simp add: uniqueById_def)
qed

lemma uniqueById_last:
  assumes "s \<in> set (uniqueById songs)"
  shows "s = last (filter (\<lambda>x. id_song x = id_song s) songs)"
proof -
  define al where "al = foldl (\<lambda>m s. AList.update (id_song s) s m) [] songs"
  from assms obtain k where mem: "(k, s) \<in> set al"
    by (auto simp: uniqueById_def al_def)
  have keys: "map fst al = firstSeen (map id_song songs)"
    using keys_fold_update [of id_song "[]" songs] by (simp add: al_def)
  then have "distinct (map fst al)" by (simp add: distinct_firstSeen)
  with mem have look: "map_of al k = Some s" by simp
  from mem have "k \<in> set (map fst al)" by force
  with keys have "k \<in> id_song ` set songs" by (simp add: set_firstSeen)
  then have found: "map_of al k = Some (last (filter (\<lambda>x. id_song x = k) songs))"
    and nonempty: "filter (\<lambda>x. id_song x = k) songs \<noteq> []"
    by (auto simp: al_def map_of_fold_update filter_empty_conv)
  from look found have s: "s = last (filter (\<lambda>x. id_song x = k) songs)" by simp
  from nonempty have "last (filter (\<lambda>x. id_song x = k) songs) \<in> set (filter (\<lambda>x. id_song x = k) songs)"
    by (rule last_in_set)
  with s have "id_song s = k" by simp
  with s show ?thesis by simp
qed

lemma uniqueById_empty: "uniqueById songs = [] \<longleftrightarrow> songs = []"
proof -
  have "map id_song (uniqueById songs) = [] \<longleftrightarrow> songs = []"
    by (cases songs) (simp_all add: uniqueById_ids)
  then show ?thesis by simp
qed

lemma fetchPopular_result:
  "fst (fetchPopular net w) =
     (let allSongs = collect (map (\<lambda>url. fst (fetchFromITunes net url 2 (clock w))) queries)
      in if allSongs = [] then FALLBACK_SONGS else take 15 (uniqueById allSongs))"
proof -
  have "take 15 (uniqueById xs) = [] \<longleftrightarrow> xs = []" for xs
    by (simp add: uniqueById_empty)
  then show ?thesis
    by (simp add: fetchPopular_def Let_def comp_def)
qed

lemma fallback_ids: "distinct (map id_song FALLBACK_SONGS) \<and> length FALLBACK_SONGS \<le> 15"
  by (simp add: FALLBACK_SONGS_def)

text \<open>
  C3, as the code has it. Let \<open>allSongs\<close> be the songs of the three sub-queries,
  concatenated in the order the queries are issued. When no fresh popular entry is
  cached, the list \<^verbatim>\<open>getPopularSongs\<close> returns contains each identifier at most once
  and has at most 15 songs; when \<open>allSongs\<close> is not empty, its identifiers are the
  first 15 identifiers of \<open>allSongs\<close> in first-seen order, and the song retained for an
  identifier is the LAST song of \<open>allSongs\<close> with that identifier, standing at the place
  where the identifier was first seen.
\<close>

theorem popular_deduplicated:
  assumes "\<not> isCacheValid (clock w) (popularCache w) POPULAR_CACHE_TTL"
    and "allSongs = collect (map (\<lambda>url. fst (fetchFromITunes net url 2 (clock w))) queries)"
    and "out = fst (getPopularSongs net w)"
  shows "distinct (map id_song out) \<and> length out \<le> 15 \<and>
         (allSongs \<noteq> [] \<longrightarrow>
            map id_song out = take 15 (firstSeen (map id_song allSongs)) \<and>
            (\<forall>s \<in> set out. s = last (filter (\<lambda>x. id_song x = id_song s) allSongs)))"
proof -
  have "fst (getPopularSongs net w) = fst (fetchPopular net w)"
    using assms(1) by (cases "popularCache w") (simp_all add: getPopularSongs_def)
  then have out: "out = (if allSongs = [] then FALLBACK_SONGS else take 15 (uniqueById allSongs))"
    using assms(2) assms(3) by (simp add: fetchPopular_result Let_def)
  show ?thesis
  proof (cases "allSongs = []")
    case True
    with out fallback_ids show ?thesis by simp
  next
    case False
    with out have o: "out = take 15 (uniqueById allSongs)" by simp
    have "map id_song out = take 15 (map id_song (uniqueById allSongs))"
      unfolding o by (rule take_map [symmetric])
    then have ids: "map id_song out = take 15 (firstSeen (map id_song allSongs))"
      by (simp only: uniqueById_ids)
    then have "distinct (map id_song out)"
      by (simp add: distinct_firstSeen)
    moreover have "length out \<le> 15" by (simp add: o)
    moreover have "\<forall>s \<in> set out. s = last (filter (\<lambda>x. id_song x = id_song s) allSongs)"
    proof
      fix s assume "s \<in> set out"
      then have "s \<in> set (uniqueById allSongs)"
        unfolding o by (rule in_set_takeD)
      then show "s = last (filter (\<lambda>x. id_song x = id_song s) allSongs)"
        by (rule uniqueById_last)
    qed
    ultimately show ?thesis using ids by blast
  qed
qed

text \<open>The catalog with two versions of one track, asked from the empty world: the three
  sub-queries yield the track three times, and the one song returned is the version of
  the last sub-query.\<close>

theorem popular_deduplicated_witness:
  "map id_song (fst (getPopularSongs netTwoVersions emptyWorld)) = [1193701392] \<and>
   length (fst (getPopularSongs netTwoVersions emptyWorld)) \<le> 15 \<and>
   hd (fst (getPopularSongs netTwoVersions emptyWorld)) =
     last (collect (map (\<lambda>url. fst (fetchFromITunes netTwoVersions url 2 0)) queries))"
proof -
  define allSongs where
    "allSongs = collect (map (\<lambda>url. fst (fetchFromITunes netTwoVersions url 2 (clock emptyWorld))) queries)"
  define out where "out = fst (getPopularSongs netTwoVersions emptyWorld)"
  have miss: "\<not> isCacheValid (clock emptyWorld) (popularCache emptyWorld) POPULAR_CACHE_TTL"
    by (simp add: emptyWorld_def isCacheValid_def)
  note inst = popular_deduplicated [OF miss allSongs_def out_def]
  have ids: "map id_song allSongs = [1193701392, 1193701392, 1193701392]"
    unfolding allSongs_def by code_simp
  then have ne: "allSongs \<noteq> []" by auto
  have fs: "take 15 (firstSeen (map id_song allSongs)) = [1193701392]"
    by (simp add: ids)
  from inst ne fs have a: "map id_song out = [1193701392]" by simp
  from inst have b: "length out \<le> 15" by blast
  from a obtain s where o: "out = [s]" by auto
  with a have sid: "id_song s = 1193701392" by simp
  have "filter (\<lambda>x. id_song x = 1193701392) allSongs = allSongs"
    using ids by (auto intro!: filter_True dest: arg_cong [where f = set])
  with inst ne o sid have c: "hd out = last allSongs" by simp
  have clk: "clock emptyWorld = 0" by (simp add: emptyWorld_def)
  from a b c show ?thesis
    by (simp add: out_def allSongs_def clk)
qed

text \<open>The claim as stated fails there: the first occurrence of the identifier is the
  song titled \<^verbatim>\<open>Perfect\<close>, the song returned is the later version.\<close>

theorem first_occurrence_counterexample:
  "map id_song (collect (map (\<lambda>url. fst (fetchFromITunes netTwoVersions url 2 0)) queries)) =
     [1193701392, 1193701392, 1193701392] \<and>
   map title (collect (map (\<lambda>url. fst (fetchFromITunes netTwoVersions url 2 0)) queries)) =
     [''Perfect'', ''Perfect (Acoustic)'', ''Perfect (Acoustic)''] \<and>
   map title (fst (getPopularSongs netTwoVersions emptyWorld)) = [''Perfect (Acoustic)'']"
  by code_simp


section \<open>Preview URLs\<close>

text \<open>The normalizer drops every track without a preview URL, so each song it emits
  has one.\<close>

lemma parse_preview_nonempty:
  "s \<in> set (parseITunesResponse d) \<Longrightarrow> preview s \<noteq> []"
  by (auto simp: parseITunesResponse_def toSong_def validTrack_def truthyStr_def
      split: option.splits if_splits)

text \<open>
  C2 at the failing input: with the catalog down and nothing cached,
  \<^verbatim>\<open>getPopularSongs\<close> returns the built-in list, and \<^verbatim>\<open>searchSongs\<close> finds
  \<^verbatim>\<open>Levitating\<close> in it; the second and third song of the list carry the empty string
  as their preview URL.
\<close>

theorem fallback_songs_empty_preview:
  "fst (getPopularSongs netDown emptyWorld) = FALLBACK_SONGS \<and>
   map (\<lambda>s. preview s = []) FALLBACK_SONGS = [False, True, True] \<and>
   map (\<lambda>s. (title s, preview s)) (fst (searchSongs netDown ''levitating'' emptyWorld)) =
     [(''Levitating'', [])]"
  by code_simp


section \<open>Title and artist of a resolved link\<close>

lemma split_no_separator: "sep \<notin> set s \<Longrightarrow> split sep s = [s]"
proof -
  assume no: "sep \<notin> set s"
  have tw: "takeWhile (\<lambda>c. c \<noteq> sep) s = s"
    using no by (auto intro: takeWhile_eq_all_conv [THEN iffD2])
  have dw: "dropWhile (\<lambda>c. c \<noteq> sep) s = []"
    using no by auto
  show ?thesis
    by (subst split.simps) (simp only: tw dw list.case)
qed

lemma split_at_separator:
  "sep \<notin> set a \<Longrightarrow> split sep (a @ sep # b) = a # split sep b"
proof -
  assume no: "sep \<notin> set a"
  have tw: "takeWhile (\<lambda>c. c \<noteq> sep) (a @ sep # b) = a"
    using no by (induction a) auto
  have dw: "dropWhile (\<lambda>c. c \<noteq> sep) (a @ sep # b) = sep # b"
    using no by (induction a) auto
  show ?thesis
    by (subst split.simps) (simp only: tw dw list.case)
qed

lemma split_head: "\<exists>ps. split sep b = takeWhile (\<lambda>c. c \<noteq> sep) b # ps"
  by (subst split.simps) simp

lemma middleDot_plain: "\<not> isWhiteSpace middleDot"
  by (simp add: isWhiteSpace_def middleDot_def code_def)

lemma afterLazy_no_dot: "middleDot \<notin> set rest \<Longrightarrow> afterLazy rest = None"
proof -
  assume no: "middleDot \<notin> set rest"
  show ?thesis
  proof (cases "dropWhile isWhiteSpace rest")
    case Nil
    show ?thesis unfolding afterLazy_def Nil by simp
  next
    case (Cons d s)
    then have "d \<in> set (dropWhile isWhiteSpace rest)" by simp
    then have "d \<in> set rest" by (rule set_dropWhileD)
    with no have "d \<noteq> middleDot" by auto
    then show ?thesis unfolding afterLazy_def Cons by simp
  qed
qed

lemma lazyGroup_no_dot: "middleDot \<notin> set rest \<Longrightarrow> lazyGroup acc rest = None"
proof (induction rest arbitrary: acc)
  case Nil
  then show ?case by (subst lazyGroup.simps) (simp add: afterLazy_no_dot)
next
  case (Cons d ds)
  then have "afterLazy (d # ds) = None" and "lazyGroup (acc @ [d]) ds = None"
    by (simp_all add: afterLazy_no_dot)
  then show ?case by (subst lazyGroup.simps) simp
qed

lemma matchTitleArtist_no_dot: "middleDot \<notin> set s \<Longrightarrow> matchTitleArtist s = None"
  by (induction s) (simp_all add: lazyGroup_no_dot)

lemma lastGroup_first_try:
  "dotRun (drop k s) \<noteq> [] \<Longrightarrow> lastGroup s k = Some (dotRun (drop k s))"
  by (cases k) simp_all

lemma afterLazy_at_dot:
  assumes "\<forall>c \<in> set w1. isWhiteSpace c" and "\<forall>c \<in> set w2. isWhiteSpace c"
    and "b \<noteq> []" and "\<not> isWhiteSpace (hd b)" and "\<forall>c \<in> set b. \<not> isLineTerminator c"
  shows "afterLazy (w1 @ middleDot # w2 @ b) = Some b"
proof -
  obtain h bs where b: "b = h # bs" using assms(3) by (cases b) auto
  have d1: "dropWhile isWhiteSpace (w1 @ middleDot # w2 @ b) = middleDot # w2 @ b"
    using assms(1) middleDot_plain by simp
  have t2: "takeWhile isWhiteSpace (w2 @ b) = w2"
    using assms(2) assms(4) b by simp
  have "dotRun (drop (length w2) (w2 @ b)) = b"
    using assms(5) by (simp add: dotRun_def)
  with assms(3) have "lastGroup (w2 @ b) (length w2) = Some b"
    using lastGroup_first_try [of "length w2" "w2 @ b"] by simp
  then show ?thesis unfolding afterLazy_def d1 by (simp add: t2)
qed

lemma afterLazy_inside:
  assumes "\<forall>c \<in> set x. c \<noteq> middleDot" and "x \<noteq> []" and "\<not> isWhiteSpace (last x)"
  shows "afterLazy (x @ rest) = None"
proof -
  have "last x \<in> set x" using assms(2) by simp
  with assms(3) have d: "dropWhile isWhiteSpace (x @ rest) = dropWhile isWhiteSpace x @ rest"
    by simp
  have ne: "dropWhile isWhiteSpace x \<noteq> []"
    using \<open>last x \<in> set x\<close> assms(3) by auto
  then obtain h hs where h: "dropWhile isWhiteSpace x = h # hs"
    by (cases "dropWhile isWhiteSpace x") auto
  then have "h \<in> set (dropWhile isWhiteSpace x)" by simp
  then have "h \<in> set x" by (rule set_dropWhileD)
  with assms(1) have "h \<noteq> middleDot" by auto
  then show ?thesis unfolding afterLazy_def d h by simp
qed

lemma lazyGroup_split:
  assumes "\<forall>c \<in> set x. \<not> isLineTerminator c \<and> c \<noteq> middleDot"
    and "x \<noteq> [] \<longrightarrow> \<not> isWhiteSpace (last x)"
    and "\<forall>c \<in> set w1. isWhiteSpace c" and "\<forall>c \<in> set w2. isWhiteSpace c"
    and "b \<noteq> []" and "\<not> isWhiteSpace (hd b)" and "\<forall>c \<in> set b. \<not> isLineTerminator c"
  shows "lazyGroup acc (x @ w1 @ middleDot # w2 @ b) = Some (acc @ x, b)"
  using assms(1) assms(2)
proof (induction x arbitrary: acc)
  case Nil
  have "afterLazy (w1 @ middleDot # w2 @ b) = Some b"
    using assms(3-7) by (rule afterLazy_at_dot)
  then show ?case by (subst lazyGroup.simps) simp
next
  case (Cons d ds)
  have inside: "afterLazy ((d # ds) @ w1 @ middleDot # w2 @ b) = None"
    using Cons.prems by (intro afterLazy_inside) auto
  have "lazyGroup (acc @ [d]) (ds @ w1 @ middleDot # w2 @ b) = Some ((acc @ [d]) @ ds, b)"
    using Cons.prems by (intro Cons.IH) auto
  with inside Cons.prems show ?case
    by (subst lazyGroup.simps) simp
qed

lemma matchTitleArtist_split:
  assumes "a \<noteq> []" and "\<forall>c \<in> set a. \<not> isLineTerminator c \<and> c \<noteq> middleDot"
    and "\<not> isWhiteSpace (last a)"
    and "\<forall>c \<in> set w1. isWhiteSpace c" and "\<forall>c \<in> set w2. isWhiteSpace c"
    and "b \<noteq> []" and "\<not> isWhiteSpace (hd b)" and "\<forall>c \<in> set b. \<not> isLineTerminator c"
  shows "matchTitleArtist (a @ w1 @ middleDot # w2 @ b) = Some (a, b)"
proof -
  obtain c cs where a: "a = c # cs" using assms(1) by (cases a) auto
  have "lazyGroup [c] (cs @ w1 @ middleDot # w2 @ b) = Some ([c] @ cs, b)"
    using assms(2) assms(3) a by (intro lazyGroup_split assms(4-8)) auto
  with a assms(2) show ?thesis by simp
qed

text \<open>
  C1, as the code has it, for an embed response \<open>d\<close> with a title \<open>t\<close>.

  Platform B (\<^verbatim>\<open>fetchSpotifyInfo\<close>). Without a middle dot in \<open>t\<close> the title is the
  whole string, or \<^verbatim>\<open>Unknown\<close> when the string is empty, and the artist is
  \<^verbatim>\<open>Unknown Artist\<close>. When \<open>t\<close> is a piece \<open>a\<close>, white space, a middle dot, white
  space and a piece \<open>b\<close>, where both pieces are non-empty and on one line, \<open>a\<close> has no
  middle dot and does not end in white space and \<open>b\<close> does not begin with it, the title
  is \<open>a\<close> and the artist is \<open>b\<close>.

  Platform A (\<^verbatim>\<open>fetchYouTubeInfo\<close>). Without a hyphen in \<open>t\<close> the title is the whole
  string. When \<open>t\<close> is a piece \<open>a\<close> without hyphen, a hyphen and a rest \<open>b\<close>, the artist is
  the trimmed \<open>a\<close>, or \<^verbatim>\<open>Unknown Artist\<close> when that is empty, and the title is the
  trimmed piece of \<open>b\<close> before its next hyphen, or the whole string \<open>t\<close> when that is
  empty.
\<close>

theorem title_artist_split:
  "(embB (spotifyOembedUrl tid) = Ok dB \<and> oembed_title dB = Some tB \<and> middleDot \<notin> set tB \<longrightarrow>
      map_option sd_title (fetchSpotifyInfo embB tid) =
        Some (if tB = [] then ''Unknown'' else tB) \<and>
      map_option sd_artist (fetchSpotifyInfo embB tid) = Some ''Unknown Artist'') \<and>
   (embB' (spotifyOembedUrl tid') = Ok dB' \<and>
    oembed_title dB' = Some (a' @ w1 @ middleDot # w2 @ b') \<and>
    a' \<noteq> [] \<and> (\<forall>c \<in> set a'. \<not> isLineTerminator c \<and> c \<noteq> middleDot) \<and>
    \<not> isWhiteSpace (last a') \<and>
    (\<forall>c \<in> set w1. isWhiteSpace c) \<and> (\<forall>c \<in> set w2. isWhiteSpace c) \<and>
    b' \<noteq> [] \<and> \<not> isWhiteSpace (hd b') \<and> (\<forall>c \<in> set b'. \<not> isLineTerminator c) \<longrightarrow>
      map_option sd_title (fetchSpotifyInfo embB' tid') = Some a' \<and>
      map_option sd_artist (fetchSpotifyInfo embB' tid') = Some b') \<and>
   (embA (youtubeOembedUrl vid) = Ok dA \<and> oembed_title dA = Some tA \<and> CHR ''-'' \<notin> set tA \<longrightarrow>
      map_option sd_title (fetchYouTubeInfo embA vid) = Some tA) \<and>
   (embA' (youtubeOembedUrl vid') = Ok dA' \<and> oembed_title dA' = Some (a @ CHR ''-'' # b) \<and>
    CHR ''-'' \<notin> set a \<longrightarrow>
      map_option sd_artist (fetchYouTubeInfo embA' vid') =
        Some (if trim a = [] then ''Unknown Artist'' else trim a) \<and>
      map_option sd_title (fetchYouTubeInfo embA' vid') =
        Some (if trim (takeWhile (\<lambda>c. c \<noteq> CHR ''-'') b) = [] then a @ CHR ''-'' # b
              else trim (takeWhile (\<lambda>c. c \<noteq> CHR ''-'') b)))"
proof (intro conjI impI)
  assume h: "embB (spotifyOembedUrl tid) = Ok dB \<and> oembed_title dB = Some tB \<and>
    middleDot \<notin> set tB"
  then have none: "matchTitleArtist tB = None" by (simp add: matchTitleArtist_no_dot)
  with h show "map_option sd_title (fetchSpotifyInfo embB tid) =
      Some (if tB = [] then ''Unknown'' else tB)"
    by (simp add: fetchSpotifyInfo_def orElse_def)
  from h none show "map_option sd_artist (fetchSpotifyInfo embB tid) = Some ''Unknown Artist''"
    by (simp add: fetchSpotifyInfo_def)
next
  assume h: "embB' (spotifyOembedUrl tid') = Ok dB' \<and>
    oembed_title dB' = Some (a' @ w1 @ middleDot # w2 @ b') \<and>
    a' \<noteq> [] \<and> (\<forall>c \<in> set a'. \<not> isLineTerminator c \<and> c \<noteq> middleDot) \<and>
    \<not> isWhiteSpace (last a') \<and>
    (\<forall>c \<in> set w1. isWhiteSpace c) \<and> (\<forall>c \<in> set w2. isWhiteSpace c) \<and>
    b' \<noteq> [] \<and> \<not> isWhiteSpace (hd b') \<and> (\<forall>c \<in> set b'. \<not> isLineTerminator c)"
  then have m: "matchTitleArtist (a' @ w1 @ middleDot # w2 @ b') = Some (a', b')"
    by (intro matchTitleArtist_split) auto
  with h show "map_option sd_title (fetchSpotifyInfo embB' tid') = Some a'"
    by (simp add: fetchSpotifyInfo_def)
  from h m show "map_option sd_artist (fetchSpotifyInfo embB' tid') = Some b'"
    by (simp add: fetchSpotifyInfo_def)
next
  assume h: "embA (youtubeOembedUrl vid) = Ok dA \<and> oembed_title dA = Some tA \<and>
    CHR ''-'' \<notin> set tA"
  then have "split CHR ''-'' tA = [tA]" by (simp add: split_no_separator)
  with h show "map_option sd_title (fetchYouTubeInfo embA vid) = Some tA"
    by (simp add: fetchYouTubeInfo_def at_index_def orElse_def)
next
  assume h: "embA' (youtubeOembedUrl vid') = Ok dA' \<and>
    oembed_title dA' = Some (a @ CHR ''-'' # b) \<and> CHR ''-'' \<notin> set a"
  obtain ps where ps: "split CHR ''-'' b = takeWhile (\<lambda>c. c \<noteq> CHR ''-'') b # ps"
    using split_head by blast
  with h have parts: "split CHR ''-'' (a @ CHR ''-'' # b) =
      a # takeWhile (\<lambda>c. c \<noteq> CHR ''-'') b # ps"
    by (simp add: split_at_separator)
  with h show "map_option sd_artist (fetchYouTubeInfo embA' vid') =
        Some (if trim a = [] then ''Unknown Artist'' else trim a)"
    by (simp add: fetchYouTubeInfo_def at_index_def orElse_def)
  from h parts show "map_option sd_title (fetchYouTubeInfo embA' vid') =
        Some (if trim (takeWhile (\<lambda>c. c \<noteq> CHR ''-'') b) = [] then a @ CHR ''-'' # b
              else trim (takeWhile (\<lambda>c. c \<noteq> CHR ''-'') b))"
    by (simp add: fetchYouTubeInfo_def at_index_def orElse_def)
qed

text \<open>Four embed titles: one word; track, middle dot, artist; a video title without a
  hyphen; artist, hyphen, title.\<close>

theorem title_artist_split_witness:
  "map_option sd_title (fetchSpotifyInfo (embTitle ''Intro'') ''abc123'') = Some ''Intro'' \<and>
   map_option sd_artist (fetchSpotifyInfo (embTitle ''Intro'') ''abc123'') =
     Some ''Unknown Artist'' \<and>
   map_option sd_title
     (fetchSpotifyInfo (embTitle (''Song Title'' @ '' '' @ middleDot # '' '' @ ''Artist Name''))
        ''abc123'') = Some ''Song Title'' \<and>
   map_option sd_artist
     (fetchSpotifyInfo (embTitle (''Song Title'' @ '' '' @ middleDot # '' '' @ ''Artist Name''))
        ''abc123'') = Some ''Artist Name'' \<and>
   map_option sd_title (fetchYouTubeInfo (embTitle ''Never Gonna Give You Up'') ''dQw4w9WgXcQ'') =
     Some ''Never Gonna Give You Up'' \<and>
   map_option sd_artist
     (fetchYouTubeInfo (embTitle (''Rick Astley '' @ CHR ''-'' # '' Never Gonna Give You Up''))
        ''dQw4w9WgXcQ'') = Some ''Rick Astley'' \<and>
   map_option sd_title
     (fetchYouTubeInfo (embTitle (''Rick Astley '' @ CHR ''-'' # '' Never Gonna Give You Up''))
        ''dQw4w9WgXcQ'') = Some ''Never Gonna Give You Up''"
proof -
  note inst = title_artist_split
    [where embB = "embTitle ''Intro''" and tid = "''abc123''"
       and dB = "\<lparr>oembed_title = Some ''Intro'', thumbnail_url = None\<rparr>" and tB = "''Intro''"
       and embB' = "embTitle (''Song Title'' @ '' '' @ middleDot # '' '' @ ''Artist Name'')"
       and tid' = "''abc123''"
       and dB' = "\<lparr>oembed_title = Some (''Song Title'' @ '' '' @ middleDot # '' '' @ ''Artist Name''),
                   thumbnail_url = None\<rparr>"
       and a' = "''Song Title''" and ?w1.0 = "'' ''" and ?w2.0 = "'' ''" and b' = "''Artist Name''"
       and embA = "embTitle ''Never Gonna Give You Up''" and vid = "''dQw4w9WgXcQ''"
       and dA = "\<lparr>oembed_title = Some ''Never Gonna Give You Up'', thumbnail_url = None\<rparr>"
       and tA = "''Never Gonna Give You Up''"
       and embA' = "embTitle (''Rick Astley '' @ CHR ''-'' # '' Never Gonna Give You Up'')"
       and vid' = "''dQw4w9WgXcQ''"
       and dA' = "\<lparr>oembed_title = Some (''Rick Astley '' @ CHR ''-'' # '' Never Gonna Give You Up''),
                   thumbnail_url = None\<rparr>"
       and a = "''Rick Astley ''" and b = "'' Never Gonna Give You Up''"]
  have h1: "middleDot \<notin> set ''Intro''" by code_simp
  have h2: "(\<forall>c \<in> set ''Song Title''. \<not> isLineTerminator c \<and> c \<noteq> middleDot) \<and>
      \<not> isWhiteSpace (last ''Song Title'') \<and> (\<forall>c \<in> set '' ''. isWhiteSpace c) \<and>
      \<not> isWhiteSpace (hd ''Artist Name'') \<and> (\<forall>c \<in> set ''Artist Name''. \<not> isLineTerminator c)"
    by code_simp
  have h3: "CHR ''-'' \<notin> set ''Never Gonna Give You Up''" by code_simp
  have h4: "CHR ''-'' \<notin> set ''Rick Astley ''" by code_simp
  have t1: "trim ''Rick Astley '' = ''Rick Astley''" by code_simp
  have t2: "trim (takeWhile (\<lambda>c. c \<noteq> CHR ''-'') '' Never Gonna Give You Up'') =
      ''Never Gonna Give You Up''" by code_simp
  have t3: "trim '' Never Gonna Give You Up'' = ''Never Gonna Give You Up''" by code_simp
  from inst [THEN conjunct1] h1
  have s1: "map_option sd_title (fetchSpotifyInfo (embTitle ''Intro'') ''abc123'') = Some ''Intro'' \<and>
      map_option sd_artist (fetchSpotifyInfo (embTitle ''Intro'') ''abc123'') = Some ''Unknown Artist''"
    by (simp add: embTitle_def)
  from inst [THEN conjunct2, THEN conjunct1] h2
  have s2: "map_option sd_title
       (fetchSpotifyInfo (embTitle (''Song Title'' @ '' '' @ middleDot # '' '' @ ''Artist Name''))
          ''abc123'') = Some ''Song Title'' \<and>
     map_option sd_artist
       (fetchSpotifyInfo (embTitle (''Song Title'' @ '' '' @ middleDot # '' '' @ ''Artist Name''))
          ''abc123'') = Some ''Artist Name''"
    by (simp add: embTitle_def)
  from inst [THEN conjunct2, THEN conjunct2, THEN conjunct1] h3
  have s3: "map_option sd_title
      (fetchYouTubeInfo (embTitle ''Never Gonna Give You Up'') ''dQw4w9WgXcQ'') =
      Some ''Never Gonna Give You Up''"
    by (simp add: embTitle_def)
  from inst [THEN conjunct2, THEN conjunct2, THEN conjunct2] h4
  have s4: "map_option sd_artist
       (fetchYouTubeInfo (embTitle (''Rick Astley '' @ CHR ''-'' # '' Never Gonna Give You Up''))
          ''dQw4w9WgXcQ'') = Some ''Rick Astley'' \<and>
     map_option sd_title
       (fetchYouTubeInfo (embTitle (''Rick Astley '' @ CHR ''-'' # '' Never Gonna Give You Up''))
          ''dQw4w9WgXcQ'') = Some ''Never Gonna Give You Up''"
    by (simp add: embTitle_def t1 t2 t3)
  from s1 s2 s3 s4 show ?thesis by blast
qed

text \<open>
  The claim as stated fails on three titles. A video title without a hyphen becomes the
  artist as well as the title, not \<^verbatim>\<open>Unknown Artist\<close>. A video title that ends in its
  hyphen has an empty piece after it, and the title is the whole string. An empty track
  title has no middle dot, and the title is \<^verbatim>\<open>Unknown\<close>, not the empty string.
\<close>

theorem title_artist_counterexample:
  "map_option sd_artist
     (fetchYouTubeInfo (embTitle ''Never Gonna Give You Up'') ''dQw4w9WgXcQ'') =
     Some ''Never Gonna Give You Up'' \<and>
   map_option sd_title (fetchYouTubeInfo (embTitle ''Rick Astley -'') ''dQw4w9WgXcQ'') =
     Some ''Rick Astley -'' \<and>
   map_option sd_title (fetchSpotifyInfo (embTitle []) ''abc123'') = Some ''Unknown''"
  by code_simp


section \<open>Playback window of a resolved link\<close>






end
